theory Spec2Isabelle
  imports Main
begin

section \<open>Domain-wide sharing audit (convex/googleDrive.ts)\<close>

text \<open>
  A shallow embedding of the Google Drive audit backend. Every function of
  \<^verbatim>\<open>convex/googleDrive.ts\<close> that the properties below talk about is
  translated as it is written. What the module does not contain (the process
  environment, the parser behind \<^verbatim>\<open>JSON.parse\<close>, the two Google services and the
  document store) is explicit: the first three are fields of a \<open>world\<close>
  record that every action receives, the store is a \<open>db\<close> value passed in and
  returned. A thrown \<^verbatim>\<open>Error\<close> is the left injection of a sum, an
  action that never returns (a pagination that is handed a continuation token for ever)
  is \<open>None\<close>.
\<close>

subsection \<open>JavaScript values\<close>

text \<open>Only the message of a thrown \<^verbatim>\<open>Error\<close> is ever read.\<close>

datatype error = Error (message: string)

text \<open>
  Truthiness of an optional string, as in \<^verbatim>\<open>while (pageToken)\<close> and
  \<^verbatim>\<open>if (args.domain)\<close>: \<^verbatim>\<open>undefined\<close> and the empty
  string are falsy.
\<close>

definition truthy :: "string option \<Rightarrow> bool" where
  "truthy s = (case s of None \<Rightarrow> False | Some t \<Rightarrow> t \<noteq> [])"

text \<open>The values \<^verbatim>\<open>JSON.parse\<close> can produce.\<close>

datatype json =
    JNull
  | JBool bool
  | JNum int
  | JStr string
  | JArr "json list"
  | JObj "(string \<times> json) list"

text \<open>
  Reading a property such as \<^verbatim>\<open>credentials.client_email\<close>: a
  \<^verbatim>\<open>TypeError\<close> on \<^verbatim>\<open>null\<close>, the member of an object when
  it has one, and \<^verbatim>\<open>undefined\<close> in every other case.
\<close>

fun get_property :: "json \<Rightarrow> string \<Rightarrow> error + json option" where
  "get_property JNull k =
     Inl (Error (''Cannot read properties of null (reading '' @
                 [CHR 0x27] @ k @ [CHR 0x27] @ '')''))"
| "get_property (JObj kvs) k = Inr (map_of kvs k)"
| "get_property _ k = Inr None"

subsection \<open>The outside world\<close>

text \<open>The credential built by \<^verbatim>\<open>new google.auth.JWT(...)\<close>.\<close>

record jwt =
  jwt_email :: "json option"
  jwt_key :: "json option"
  jwt_scopes :: "string list"
  jwt_subject :: string

text \<open>A page of a listing: \<^verbatim>\<open>response.data\<close>.\<close>

record 'a page =
  items :: "'a list option"
  nextPageToken :: "string option"

record api_user =
  primaryEmail :: string
  fullName :: "string option"
  user_id :: string
  u_suspended :: bool

record permission =
  p_type :: "string option"
  p_role :: "string option"
  p_domain :: "string option"

record file_owner =
  emailAddress :: "string option"

record api_file =
  f_id :: "string option"
  f_name :: "string option"
  f_webViewLink :: "string option"
  f_modifiedTime :: "string option"
  f_permissions :: "permission list option"
  f_owners :: "file_owner list option"

record users_request =
  ur_domain :: string
  ur_maxResults :: nat
  ur_pageToken :: "string option"

record files_request =
  fq_q :: string
  fq_fields :: string
  fq_pageSize :: nat
  fq_pageToken :: "string option"

record world =
  GOOGLE_SERVICE_ACCOUNT_KEY :: "string option"
  json_parser :: "string \<Rightarrow> error + json"
  syntax_error :: "string \<Rightarrow> error"
  admin_users_list :: "jwt \<Rightarrow> users_request \<Rightarrow> error + api_user page"
  drive_files_list :: "jwt \<Rightarrow> files_request \<Rightarrow> error + api_file page"

text \<open>
  \<^verbatim>\<open>JSON.parse\<close>. A JSON text is a value between optional white space, and
  a value begins with a brace, a bracket, a double quote, a minus sign, a digit or the
  first letter of \<^verbatim>\<open>true\<close>, \<^verbatim>\<open>false\<close> or \<^verbatim>\<open>null\<close>.
  A text that does not begin so (the empty text and the text \<^verbatim>\<open>undefined\<close>
  among them) is rejected with the \<^verbatim>\<open>SyntaxError\<close> of the runtime; what
  happens to any other text is left to the parser of the world.
\<close>

definition json_whitespace :: "char \<Rightarrow> bool" where
  "json_whitespace c \<longleftrightarrow> c = CHR 0x20 \<or> c = CHR 0x09 \<or> c = CHR 0x0A \<or> c = CHR 0x0D"

definition json_start :: "string \<Rightarrow> bool" where
  "json_start text =
    (case dropWhile json_whitespace text of
       [] \<Rightarrow> False
     | c # _ \<Rightarrow> c = CHR 0x22 \<or> c \<in> set ''{[-0123456789tfn'')"

definition JSON_parse :: "world \<Rightarrow> string \<Rightarrow> error + json" where
  "JSON_parse w text =
    (if json_start text then json_parser w text else Inl (syntax_error w text))"

definition SCOPES :: "string list" where
  "SCOPES =
    [''https://www.googleapis.com/auth/admin.directory.users.readonly'',
     ''https://www.googleapis.com/auth/drive.metadata.readonly'',
     ''https://www.googleapis.com/auth/drive.readonly'',
     ''https://www.googleapis.com/auth/spreadsheets'',
     ''https://www.googleapis.com/auth/drive.file'']"

text \<open>
  \<^verbatim>\<open>JSON.parse(process.env.GOOGLE_SERVICE_ACCOUNT_KEY!)\<close>: the argument
  is converted to a string first, so an unset variable is parsed as the text
  \<^verbatim>\<open>undefined\<close>.
\<close>

definition key_text :: "world \<Rightarrow> string" where
  "key_text w = (case GOOGLE_SERVICE_ACCOUNT_KEY w of None \<Rightarrow> ''undefined'' | Some s \<Rightarrow> s)"

subsection \<open>Credentials\<close>

definition initializeAdminService :: "world \<Rightarrow> string \<Rightarrow> string \<Rightarrow> error + jwt" where
  "initializeAdminService w domain adminUser =
    (if \<not> truthy (GOOGLE_SERVICE_ACCOUNT_KEY w)
     then Inl (Error ''GOOGLE_SERVICE_ACCOUNT_KEY environment variable is required'')
     else case JSON_parse w (key_text w) of
       Inl e \<Rightarrow> Inl e
     | Inr credentials \<Rightarrow>
        (case get_property credentials ''client_email'' of
           Inl e \<Rightarrow> Inl e
         | Inr email \<Rightarrow>
            (case get_property credentials ''private_key'' of
               Inl e \<Rightarrow> Inl e
             | Inr key \<Rightarrow>
                Inr \<lparr>jwt_email = email, jwt_key = key, jwt_scopes = SCOPES,
                     jwt_subject = adminUser\<rparr>)))"

text \<open>
  The credential of \<^verbatim>\<open>getPubliclySharedFiles\<close>, which parses the key
  twice and does not test for its presence.
\<close>

definition impersonate :: "world \<Rightarrow> string \<Rightarrow> error + jwt" where
  "impersonate w userEmail =
    (case JSON_parse w (key_text w) of
       Inl e \<Rightarrow> Inl e
     | Inr c1 \<Rightarrow>
        (case get_property c1 ''client_email'' of
           Inl e \<Rightarrow> Inl e
         | Inr email \<Rightarrow>
            (case JSON_parse w (key_text w) of
               Inl e \<Rightarrow> Inl e
             | Inr c2 \<Rightarrow>
                (case get_property c2 ''private_key'' of
                   Inl e \<Rightarrow> Inl e
                 | Inr key \<Rightarrow>
                    Inr \<lparr>jwt_email = email, jwt_key = key, jwt_scopes = SCOPES,
                         jwt_subject = userEmail\<rparr>))))"

subsection \<open>Directory listing\<close>

text \<open>The user object that \<^verbatim>\<open>getDomainUsers\<close> returns.\<close>

record domain_user =
  du_email :: string
  du_name :: "string option"
  du_id :: string
  du_suspended :: bool

text \<open>
  The \<^verbatim>\<open>do ... while (pageToken)\<close> loop of \<^verbatim>\<open>getDomainUsers\<close>;
  \<open>list\<close> is the page request with everything but the token fixed.
\<close>

partial_function (option) users_loop ::
  "(string option \<Rightarrow> error + api_user page) \<Rightarrow> string option \<Rightarrow> api_user list
     \<Rightarrow> (error + api_user list) option" where
  "users_loop list pageToken users =
    (case list pageToken of
       Inl e \<Rightarrow> Some (Inl e)
     | Inr response \<Rightarrow>
        (let users' = (case items response of None \<Rightarrow> users | Some us \<Rightarrow> users @ us);
             pageToken' = nextPageToken response
         in if truthy pageToken' then users_loop list pageToken' users'
            else Some (Inr users')))"

declare users_loop.simps [code]

text \<open>\<^verbatim>\<open>admin.users.list({domain, maxResults: 500, pageToken})\<close>.\<close>

definition users_request_of ::
  "world \<Rightarrow> jwt \<Rightarrow> string \<Rightarrow> string option \<Rightarrow> error + api_user page" where
  "users_request_of w admin domain pageToken =
    admin_users_list w admin
      \<lparr>ur_domain = domain, ur_maxResults = 500, ur_pageToken = pageToken\<rparr>"

definition getDomainUsers ::
  "world \<Rightarrow> string \<Rightarrow> string \<Rightarrow> (error + domain_user list) option" where
  "getDomainUsers w domain adminUser =
    (let failed = (\<lambda>e. Error (''Failed to fetch domain users: '' @ message e)) in
     case initializeAdminService w domain adminUser of
       Inl e \<Rightarrow> Some (Inl (failed e))
     | Inr admin \<Rightarrow>
        (case users_loop (users_request_of w admin domain) None [] of
           None \<Rightarrow> None
         | Some (Inl e) \<Rightarrow> Some (Inl (failed e))
         | Some (Inr users) \<Rightarrow>
            Some (Inr (map (\<lambda>user. \<lparr>du_email = primaryEmail user, du_name = fullName user,
                                     du_id = user_id user, du_suspended = u_suspended user\<rparr>)
                           users))))"

subsection \<open>Scanning one user's files\<close>

text \<open>A permission and a file as \<^verbatim>\<open>getPubliclySharedFiles\<close> returns them.\<close>

record permission_record =
  pr_type :: "string option"
  pr_role :: "string option"
  pr_domain :: "string option"

record file_record =
  fr_id :: "string option"
  fr_name :: "string option"
  fr_link :: "string option"
  fr_modified :: "string option"
  fr_owner :: string
  fr_permissions :: "permission_record list option"

text \<open>
  The predicate handed to \<^verbatim>\<open>permissions?.some(...)\<close>, and the predicate
  handed to \<^verbatim>\<open>files.filter(...)\<close>: a file without a permission list is
  dropped.
\<close>

definition public_permission :: "string \<Rightarrow> permission \<Rightarrow> bool" where
  "public_permission domain p =
    (p_type p = Some ''anyone'' \<or> (p_type p = Some ''domain'' \<and> p_domain p = Some domain))"

definition publicly_accessible :: "string \<Rightarrow> api_file \<Rightarrow> bool" where
  "publicly_accessible domain file =
    (case f_permissions file of
       None \<Rightarrow> False
     | Some ps \<Rightarrow> list_ex (public_permission domain) ps)"

text \<open>
  \<^verbatim>\<open>file.owners?.[0]?.emailAddress || args.userEmail\<close>: the right operand is
  taken whenever the left one is missing or is the empty string.
\<close>

definition owner_of :: "api_file \<Rightarrow> string \<Rightarrow> string" where
  "owner_of file userEmail =
    (let first_email =
       (case f_owners file of
          None \<Rightarrow> None
        | Some [] \<Rightarrow> None
        | Some (ow # _) \<Rightarrow> emailAddress ow)
     in case first_email of
          None \<Rightarrow> userEmail
        | Some e \<Rightarrow> if e \<noteq> [] then e else userEmail)"

definition to_file_record :: "string \<Rightarrow> api_file \<Rightarrow> file_record" where
  "to_file_record userEmail file =
    \<lparr>fr_id = f_id file,
     fr_name = f_name file,
     fr_link = f_webViewLink file,
     fr_modified = f_modifiedTime file,
     fr_owner = owner_of file userEmail,
     fr_permissions =
       map_option (map (\<lambda>p. \<lparr>pr_type = p_type p, pr_role = p_role p, pr_domain = p_domain p\<rparr>))
         (f_permissions file)\<rparr>"

text \<open>The \<^verbatim>\<open>do ... while (pageToken)\<close> loop of the scan.\<close>

partial_function (option) files_loop ::
  "(string option \<Rightarrow> error + api_file page) \<Rightarrow> string \<Rightarrow> string option \<Rightarrow> api_file list
     \<Rightarrow> (error + api_file list) option" where
  "files_loop list domain pageToken files =
    (case list pageToken of
       Inl e \<Rightarrow> Some (Inl e)
     | Inr response \<Rightarrow>
        (let files' =
               (case items response of
                  None \<Rightarrow> files
                | Some fs \<Rightarrow> files @ filter (publicly_accessible domain) fs);
             pageToken' = nextPageToken response
         in if truthy pageToken' then files_loop list domain pageToken' files'
            else Some (Inr files')))"

declare files_loop.simps [code]

text \<open>The search expression, whose literals are in single quotes.\<close>

definition visibility_query :: string where
  "visibility_query =
    ''visibility='' @ [CHR 0x27] @ ''anyoneCanFind'' @ [CHR 0x27] @
    '' or visibility='' @ [CHR 0x27] @ ''anyoneWithLink'' @ [CHR 0x27]"

text \<open>\<^verbatim>\<open>drive.files.list({q, fields, pageSize: 1000, pageToken})\<close>.\<close>

definition files_request_of :: "world \<Rightarrow> jwt \<Rightarrow> string option \<Rightarrow> error + api_file page" where
  "files_request_of w auth pageToken =
    drive_files_list w auth
      \<lparr>fq_q = visibility_query,
       fq_fields =
         ''nextPageToken, files(id, name, webViewLink, modifiedTime, permissions, owners)'',
       fq_pageSize = 1000,
       fq_pageToken = pageToken\<rparr>"

definition getPubliclySharedFiles ::
  "world \<Rightarrow> string \<Rightarrow> string \<Rightarrow> string \<Rightarrow> (error + file_record list) option" where
  "getPubliclySharedFiles w domain adminUser userEmail =
    (let failed =
       (\<lambda>e. Error (''Failed to fetch files for '' @ userEmail @ '': '' @ message e)) in
     case impersonate w userEmail of
       Inl e \<Rightarrow> Some (Inl (failed e))
     | Inr auth \<Rightarrow>
        (case files_loop (files_request_of w auth) domain None [] of
           None \<Rightarrow> None
         | Some (Inl e) \<Rightarrow> Some (Inl (failed e))
         | Some (Inr files) \<Rightarrow> Some (Inr (map (to_file_record userEmail) files))))"

subsection \<open>The document store\<close>

text \<open>
  The two tables of the module. The store gives every inserted document an identifier
  and a creation time of its own (\<^verbatim>\<open>_id\<close>, \<^verbatim>\<open>_creationTime\<close>);
  identifiers come from a counter. A query walks a table by creation time, ascending
  unless \<^verbatim>\<open>.order("desc")\<close> is given.
\<close>

record user_audit =
  ua_user :: string
  ua_userName :: "string option"
  ua_fileCount :: nat
  ua_files :: "file_record list"

record audit_doc =
  a_id :: nat
  a_creationTime :: nat
  a_domain :: string
  a_totalUsers :: nat
  a_totalFiles :: nat
  a_results :: "user_audit list"
  a_createdAt :: nat

record connection_doc =
  c_id :: nat
  c_creationTime :: nat
  c_userId :: string
  c_domain :: string
  c_adminEmail :: string
  c_isActive :: bool
  c_createdAt :: nat

record db =
  driveAudits :: "audit_doc list"
  driveConnections :: "connection_doc list"
  next_id :: nat

definition empty_db :: db where
  "empty_db = \<lparr>driveAudits = [], driveConnections = [], next_id = 0\<rparr>"

definition order_asc :: "('a \<Rightarrow> nat) \<Rightarrow> 'a list \<Rightarrow> 'a list" where
  "order_asc creation docs = sort_key creation docs"

definition order_desc :: "('a \<Rightarrow> nat) \<Rightarrow> 'a list \<Rightarrow> 'a list" where
  "order_desc creation docs = rev (sort_key creation docs)"

text \<open>\<^verbatim>\<open>.first()\<close>: the first document of the walk, or \<^verbatim>\<open>null\<close>.\<close>

definition first_doc :: "'a list \<Rightarrow> 'a option" where
  "first_doc docs = (case docs of [] \<Rightarrow> None | d # _ \<Rightarrow> Some d)"

text \<open>
  \<^verbatim>\<open>storeAuditResults\<close>; \<open>now\<close> is the clock reading of the mutation,
  which \<^verbatim>\<open>Date.now()\<close> returns and the store stamps on the document.
\<close>

definition storeAuditResults ::
  "nat \<Rightarrow> string \<Rightarrow> nat \<Rightarrow> nat \<Rightarrow> user_audit list \<Rightarrow> db \<Rightarrow> nat \<times> db" where
  "storeAuditResults now domain totalUsers totalFiles results d =
    (let auditId = next_id d in
     (auditId,
      d\<lparr>driveAudits := driveAudits d @
           [\<lparr>a_id = auditId, a_creationTime = now, a_domain = domain,
             a_totalUsers = totalUsers, a_totalFiles = totalFiles, a_results = results,
             a_createdAt = now\<rparr>],
        next_id := Suc (next_id d)\<rparr>))"

definition getAuditHistory :: "string option \<Rightarrow> db \<Rightarrow> audit_doc list" where
  "getAuditHistory domain d =
    (if truthy domain
     then take 50 (order_desc a_creationTime
                     (filter (\<lambda>a. Some (a_domain a) = domain) (driveAudits d)))
     else take 50 (order_desc a_creationTime (driveAudits d)))"

definition getAuditById :: "nat \<Rightarrow> db \<Rightarrow> audit_doc option" where
  "getAuditById auditId d = find (\<lambda>a. a_id a = auditId) (driveAudits d)"

text \<open>\<^verbatim>\<open>ctx.db.patch(id, {...})\<close> on the connections table.\<close>

definition patch_connection ::
  "nat \<Rightarrow> (connection_doc \<Rightarrow> connection_doc) \<Rightarrow> db \<Rightarrow> db" where
  "patch_connection cid upd d =
    d\<lparr>driveConnections := map (\<lambda>c. if c_id c = cid then upd c else c) (driveConnections d)\<rparr>"

definition createDriveConnection ::
  "nat \<Rightarrow> string \<Rightarrow> string \<Rightarrow> string \<Rightarrow> db \<Rightarrow> nat \<times> db" where
  "createDriveConnection now userId domain adminEmail d =
    (case first_doc (order_asc c_creationTime
                       (filter (\<lambda>c. c_userId c = userId \<and> c_domain c = domain)
                          (driveConnections d))) of
       Some existing \<Rightarrow>
         (c_id existing,
          patch_connection (c_id existing)
            (\<lambda>c. c\<lparr>c_adminEmail := adminEmail, c_isActive := True\<rparr>) d)
     | None \<Rightarrow>
         (next_id d,
          d\<lparr>driveConnections := driveConnections d @
               [\<lparr>c_id = next_id d, c_creationTime = now, c_userId = userId,
                 c_domain = domain, c_adminEmail = adminEmail, c_isActive = True,
                 c_createdAt = now\<rparr>],
            next_id := Suc (next_id d)\<rparr>))"

definition getUserDriveConnections :: "string \<Rightarrow> db \<Rightarrow> connection_doc list" where
  "getUserDriveConnections userId d =
    order_asc c_creationTime (filter (\<lambda>c. c_userId c = userId) (driveConnections d))"

definition deactivateDriveConnection :: "nat \<Rightarrow> db \<Rightarrow> db" where
  "deactivateDriveConnection connectionId d =
    patch_connection connectionId (\<lambda>c. c\<lparr>c_isActive := False\<rparr>) d"

subsection \<open>The audit run\<close>

text \<open>
  The \<^verbatim>\<open>for (const user of users)\<close> loop of \<^verbatim>\<open>runDomainAudit\<close>,
  with its two accumulators; \<open>scan\<close> is the call of
  \<^verbatim>\<open>getPubliclySharedFiles\<close> for one user's email. The inner
  \<^verbatim>\<open>catch\<close> only logs, so a failed scan leaves both accumulators as they were.
\<close>

fun audit_loop ::
  "(string \<Rightarrow> (error + file_record list) option) \<Rightarrow> domain_user list \<Rightarrow> user_audit list \<Rightarrow> nat
     \<Rightarrow> (user_audit list \<times> nat) option" where
  "audit_loop scan [] auditResults totalFiles = Some (auditResults, totalFiles)"
| "audit_loop scan (user # users) auditResults totalFiles =
    (if du_suspended user then audit_loop scan users auditResults totalFiles
     else case scan (du_email user) of
       None \<Rightarrow> None
     | Some (Inl e) \<Rightarrow> audit_loop scan users auditResults totalFiles
     | Some (Inr userFiles) \<Rightarrow>
         audit_loop scan users
           (if length userFiles > 0
            then auditResults @
                   [\<lparr>ua_user = du_email user, ua_userName = du_name user,
                     ua_fileCount = length userFiles, ua_files = userFiles\<rparr>]
            else auditResults)
           (totalFiles + length userFiles))"

record audit_summary =
  s_auditId :: nat
  s_totalUsers :: nat
  s_usersWithPublicFiles :: nat
  s_totalFiles :: nat
  s_results :: "user_audit list"

definition runDomainAudit ::
  "world \<Rightarrow> nat \<Rightarrow> string \<Rightarrow> string \<Rightarrow> db \<Rightarrow> ((error + audit_summary) \<times> db) option" where
  "runDomainAudit w now domain adminUser d =
    (let failed = (\<lambda>e. Error (''Domain audit failed: '' @ message e)) in
     case getDomainUsers w domain adminUser of
       None \<Rightarrow> None
     | Some (Inl e) \<Rightarrow> Some (Inl (failed e), d)
     | Some (Inr users) \<Rightarrow>
        (case audit_loop (getPubliclySharedFiles w domain adminUser) users [] 0 of
           None \<Rightarrow> None
         | Some (auditResults, totalFiles) \<Rightarrow>
            (case storeAuditResults now domain (length users) totalFiles auditResults d of
               (auditId, d') \<Rightarrow>
                 Some (Inr \<lparr>s_auditId = auditId,
                            s_totalUsers = length users,
                            s_usersWithPublicFiles = length auditResults,
                            s_totalFiles = totalFiles,
                            s_results = auditResults\<rparr>, d'))))"

subsection \<open>The connection test and the dashboard's set-up handler\<close>

record connection_test =
  t_success :: bool
  t_message :: string
  t_userCount :: "nat option"

text \<open>
  \<^verbatim>\<open>testDriveConnection\<close> catches whatever is thrown in its body and returns
  an object in both cases, so its outcome is always on the right.
\<close>

definition testDriveConnection :: "world \<Rightarrow> string \<Rightarrow> string \<Rightarrow> error + connection_test" where
  "testDriveConnection w domain adminUser =
    (let failed = (\<lambda>e. Inr \<lparr>t_success = False,
                             t_message = ''Connection failed: '' @ message e,
                             t_userCount = None\<rparr>) in
     if \<not> truthy (GOOGLE_SERVICE_ACCOUNT_KEY w)
     then failed (Error ''GOOGLE_SERVICE_ACCOUNT_KEY environment variable is required'')
     else case initializeAdminService w domain adminUser of
       Inl e \<Rightarrow> failed e
     | Inr admin \<Rightarrow>
        (case admin_users_list w admin
                \<lparr>ur_domain = domain, ur_maxResults = 1, ur_pageToken = None\<rparr> of
           Inl e \<Rightarrow> failed e
         | Inr response \<Rightarrow>
            Inr \<lparr>t_success = True,
                 t_message = ''Successfully connected to Google Drive API'',
                 t_userCount =
                   Some (case items response of None \<Rightarrow> 0 | Some us \<Rightarrow> length us)\<rparr>))"

text \<open>
  \<^verbatim>\<open>handleCreateConnection\<close> of \<^verbatim>\<open>drive-audit.tsx\<close>: the signed-in
  user's id (if any) and the two form fields go in; the toast shown, the form fields
  afterwards and the store come out.
\<close>

datatype toast = ToastError string | ToastSuccess string

definition handleCreateConnection ::
  "world \<Rightarrow> nat \<Rightarrow> string option \<Rightarrow> string \<Rightarrow> string \<Rightarrow> db
     \<Rightarrow> toast \<times> (string \<times> string) \<times> db" where
  "handleCreateConnection w now user domain adminEmail d =
    (case user of
       None \<Rightarrow> (ToastError ''Please fill in all fields'', (domain, adminEmail), d)
     | Some uid \<Rightarrow>
        if domain = [] \<or> adminEmail = []
        then (ToastError ''Please fill in all fields'', (domain, adminEmail), d)
        else
          (case testDriveConnection w domain adminEmail of
             Inl e \<Rightarrow>
               (ToastError ''Failed to create connection. Please check your credentials.'',
                (domain, adminEmail), d)
           | Inr testResult \<Rightarrow>
               if \<not> t_success testResult
               then (ToastError (''Connection test failed: '' @ t_message testResult),
                     (domain, adminEmail), d)
               else case createDriveConnection now uid domain adminEmail d of
                 (cid, d') \<Rightarrow>
                   (ToastSuccess ''Google Drive connection created successfully!'',
                    ([], []), d')))"

subsection \<open>What a pagination fetches\<close>

text \<open>
  \<open>fetched list tok xs\<close>: starting with token \<open>tok\<close>, the listing answers every
  request and stops handing out tokens, and \<open>xs\<close> are the items of its pages in order.
  \<open>fetch_fails list tok e\<close>: some request of that walk is answered by the error \<open>e\<close>.
\<close>

definition page_items :: "'a page \<Rightarrow> 'a list" where
  "page_items pg = (case items pg of None \<Rightarrow> [] | Some xs \<Rightarrow> xs)"

inductive fetched :: "(string option \<Rightarrow> error + 'a page) \<Rightarrow> string option \<Rightarrow> 'a list \<Rightarrow> bool"
  for list :: "string option \<Rightarrow> error + 'a page" where
  last_page: "list tok = Inr pg \<Longrightarrow> \<not> truthy (nextPageToken pg)
     \<Longrightarrow> fetched list tok (page_items pg)"
| next_page: "list tok = Inr pg \<Longrightarrow> truthy (nextPageToken pg)
     \<Longrightarrow> fetched list (nextPageToken pg) rest
     \<Longrightarrow> fetched list tok (page_items pg @ rest)"

inductive fetch_fails :: "(string option \<Rightarrow> error + 'a page) \<Rightarrow> string option \<Rightarrow> error \<Rightarrow> bool"
  for list :: "string option \<Rightarrow> error + 'a page" where
  this_page: "list tok = Inl e \<Longrightarrow> fetch_fails list tok e"
| later_page: "list tok = Inr pg \<Longrightarrow> truthy (nextPageToken pg)
     \<Longrightarrow> fetch_fails list (nextPageToken pg) e
     \<Longrightarrow> fetch_fails list tok e"

subsection \<open>What a run is expected to record\<close>

text \<open>
  The entry a directory user contributes to the results of a run: one entry for a user
  who is not suspended and whose scan returned at least one file, nothing otherwise.
  \<open>scan_raises\<close> says that the scan of a user ended in an error.
\<close>

definition scan_entries ::
  "(string \<Rightarrow> (error + file_record list) option) \<Rightarrow> domain_user \<Rightarrow> user_audit list" where
  "scan_entries scan user =
    (if du_suspended user then []
     else case scan (du_email user) of
       Some (Inr userFiles) \<Rightarrow>
         (if userFiles = [] then []
          else [\<lparr>ua_user = du_email user, ua_userName = du_name user,
                 ua_fileCount = length userFiles, ua_files = userFiles\<rparr>])
     | _ \<Rightarrow> [])"

definition scan_raises ::
  "(string \<Rightarrow> (error + file_record list) option) \<Rightarrow> domain_user \<Rightarrow> bool" where
  "scan_raises scan user = (case scan (du_email user) of Some (Inl e) \<Rightarrow> True | _ \<Rightarrow> False)"

definition scan_returns ::
  "(string \<Rightarrow> (error + file_record list) option) \<Rightarrow> domain_user \<Rightarrow> bool" where
  "scan_returns scan user = (case scan (du_email user) of Some r \<Rightarrow> True | None \<Rightarrow> False)"

text \<open>
  The record \<^verbatim>\<open>storeAuditResults\<close> appends for a run over the directory
  \<open>users\<close>.
\<close>

definition expected_audit ::
  "(string \<Rightarrow> (error + file_record list) option) \<Rightarrow> nat \<Rightarrow> string \<Rightarrow> domain_user list \<Rightarrow> db
     \<Rightarrow> audit_doc" where
  "expected_audit scan now domain users d =
    (let results = concat (map (scan_entries scan) users) in
     \<lparr>a_id = next_id d, a_creationTime = now, a_domain = domain,
      a_totalUsers = length users,
      a_totalFiles = sum_list (map ua_fileCount results),
      a_results = results,
      a_createdAt = now\<rparr>)"

subsection \<open>The invariant of the connections table\<close>

text \<open>
  No two connections share an owner and a domain. The empty store satisfies this and
  every mutation of the module keeps it.
\<close>

definition one_connection_per_pair :: "db \<Rightarrow> bool" where
  "one_connection_per_pair d \<longleftrightarrow>
     distinct (map (\<lambda>c. (c_userId c, c_domain c)) (driveConnections d))"

definition connections_for :: "string \<Rightarrow> string \<Rightarrow> db \<Rightarrow> connection_doc list" where
  "connections_for userId domain d =
    filter (\<lambda>c. c_userId c = userId \<and> c_domain c = domain) (driveConnections d)"

subsection \<open>A small organisation\<close>

text \<open>
  A concrete world on which the theorems below are exercised: the directory of
  \<open>example.com\<close> has four users on two pages. Alice has four files on two pages, two
  of them public; the scan of Bob is refused; Carol is suspended; Dave has no files.
  The directory of \<open>example.net\<close> breaks on its second page.
\<close>

definition dq :: "string \<Rightarrow> string" where
  "dq s = [CHR 0x22] @ s @ [CHR 0x22]"

definition demo_key :: string where
  "demo_key =
    ''{'' @ dq ''client_email'' @ '':'' @ dq ''audit@svc.example.com'' @ '','' @
    dq ''private_key'' @ '':'' @ dq ''PEM'' @ ''}''"

definition demo_parse :: "string \<Rightarrow> error + json" where
  "demo_parse s =
    (if s = demo_key
     then Inr (JObj [(''client_email'', JStr ''audit@svc.example.com''),
                     (''private_key'', JStr ''PEM'')])
     else if s = ''null'' then Inr JNull
     else if s = ''{}'' then Inr (JObj [])
     else Inl (Error (''Expected property name or '' @ [CHR 0x27] @ ''}'' @ [CHR 0x27] @
                      '' in JSON at position 1'')))"

definition demo_syntax_error :: "string \<Rightarrow> error" where
  "demo_syntax_error text =
    (if text = [] then Error ''Unexpected end of JSON input''
     else Error (dq text @ '' is not valid JSON''))"

definition demo_user :: "string \<Rightarrow> string \<Rightarrow> bool \<Rightarrow> api_user" where
  "demo_user email full susp =
    \<lparr>primaryEmail = email, fullName = Some full, user_id = email, u_suspended = susp\<rparr>"

definition demo_users_list :: "jwt \<Rightarrow> users_request \<Rightarrow> error + api_user page" where
  "demo_users_list auth req =
    (if jwt_subject auth \<noteq> ''admin@example.com''
     then Inl (Error ''Not Authorized to access this resource/api'')
     else if ur_domain req = ''example.com'' then
       (case ur_pageToken req of
          None \<Rightarrow>
            Inr \<lparr>items = Some [demo_user ''alice@example.com'' ''Alice'' False,
                                demo_user ''bob@example.com'' ''Bob'' False],
                 nextPageToken = Some ''p2''\<rparr>
        | Some t \<Rightarrow>
            if t = ''p2''
            then Inr \<lparr>items = Some [demo_user ''carol@example.com'' ''Carol'' True,
                                     demo_user ''dave@example.com'' ''Dave'' False],
                      nextPageToken = None\<rparr>
            else Inl (Error ''Invalid page token''))
     else if ur_domain req = ''example.net'' then
       (case ur_pageToken req of
          None \<Rightarrow>
            Inr \<lparr>items = Some [demo_user ''erin@example.net'' ''Erin'' False],
                 nextPageToken = Some ''p2''\<rparr>
        | Some t \<Rightarrow> Inl (Error ''Backend Error''))
     else Inl (Error ''Domain not found''))"

definition demo_file :: "string \<Rightarrow> permission list \<Rightarrow> api_file" where
  "demo_file i ps =
    \<lparr>f_id = Some i, f_name = Some (''doc-'' @ i), f_webViewLink = None,
     f_modifiedTime = Some ''2024-05-01T10:00:00Z'', f_permissions = Some ps,
     f_owners = Some [\<lparr>emailAddress = Some ''alice@example.com''\<rparr>]\<rparr>"

definition demo_perm :: "string \<Rightarrow> string option \<Rightarrow> permission" where
  "demo_perm t scope = \<lparr>p_type = Some t, p_role = Some ''reader'', p_domain = scope\<rparr>"

definition demo_files_list :: "jwt \<Rightarrow> files_request \<Rightarrow> error + api_file page" where
  "demo_files_list auth req =
    (if jwt_subject auth = ''alice@example.com'' then
       (case fq_pageToken req of
          None \<Rightarrow>
            Inr \<lparr>items = Some [demo_file ''f1'' [demo_perm ''user'' None, demo_perm ''anyone'' None],
                                demo_file ''f2'' [demo_perm ''user'' None]],
                 nextPageToken = Some ''n2''\<rparr>
        | Some t \<Rightarrow>
            Inr \<lparr>items = Some [demo_file ''f3'' [demo_perm ''domain'' (Some ''example.com'')],
                                demo_file ''f4'' [demo_perm ''domain'' (Some ''other.org'')]],
                 nextPageToken = None\<rparr>)
     else if jwt_subject auth = ''bob@example.com'' then Inl (Error ''Rate Limit Exceeded'')
     else if jwt_subject auth = ''carol@example.com'' then
       Inr \<lparr>items = Some [demo_file ''f9'' [demo_perm ''anyone'' None]], nextPageToken = None\<rparr>
     else Inr \<lparr>items = None, nextPageToken = None\<rparr>)"

definition demo_world :: world where
  "demo_world =
    \<lparr>GOOGLE_SERVICE_ACCOUNT_KEY = Some demo_key,
     json_parser = demo_parse,
     syntax_error = demo_syntax_error,
     admin_users_list = demo_users_list,
     drive_files_list = demo_files_list\<rparr>"

definition demo_auth :: "string \<Rightarrow> jwt" where
  "demo_auth subject =
    \<lparr>jwt_email = Some (JStr ''audit@svc.example.com''), jwt_key = Some (JStr ''PEM''),
     jwt_scopes = SCOPES, jwt_subject = subject\<rparr>"

definition demo_record :: "string \<Rightarrow> permission_record list \<Rightarrow> file_record" where
  "demo_record i ps =
    \<lparr>fr_id = Some i, fr_name = Some (''doc-'' @ i), fr_link = None,
     fr_modified = Some ''2024-05-01T10:00:00Z'', fr_owner = ''alice@example.com'',
     fr_permissions = Some ps\<rparr>"

definition demo_perm_record :: "string \<Rightarrow> string option \<Rightarrow> permission_record" where
  "demo_perm_record t scope = \<lparr>pr_type = Some t, pr_role = Some ''reader'', pr_domain = scope\<rparr>"

definition alice_records :: "file_record list" where
  "alice_records =
    [demo_record ''f1'' [demo_perm_record ''user'' None, demo_perm_record ''anyone'' None],
     demo_record ''f3'' [demo_perm_record ''domain'' (Some ''example.com'')]]"

definition demo_directory :: "domain_user list" where
  "demo_directory =
    [\<lparr>du_email = ''alice@example.com'', du_name = Some ''Alice'',
      du_id = ''alice@example.com'', du_suspended = False\<rparr>,
     \<lparr>du_email = ''bob@example.com'', du_name = Some ''Bob'',
      du_id = ''bob@example.com'', du_suspended = False\<rparr>,
     \<lparr>du_email = ''carol@example.com'', du_name = Some ''Carol'',
      du_id = ''carol@example.com'', du_suspended = True\<rparr>,
     \<lparr>du_email = ''dave@example.com'', du_name = Some ''Dave'',
      du_id = ''dave@example.com'', du_suspended = False\<rparr>]"

definition demo_audit :: audit_doc where
  "demo_audit =
    \<lparr>a_id = 0, a_creationTime = 1000, a_domain = ''example.com'', a_totalUsers = 4,
     a_totalFiles = 2,
     a_results = [\<lparr>ua_user = ''alice@example.com'', ua_userName = Some ''Alice'',
                   ua_fileCount = 2, ua_files = alice_records\<rparr>],
     a_createdAt = 1000\<rparr>"

definition alice_files :: "api_file list" where
  "alice_files =
    [demo_file ''f1'' [demo_perm ''user'' None, demo_perm ''anyone'' None],
     demo_file ''f2'' [demo_perm ''user'' None],
     demo_file ''f3'' [demo_perm ''domain'' (Some ''example.com'')],
     demo_file ''f4'' [demo_perm ''domain'' (Some ''other.org'')]]"

definition demo_summary :: audit_summary where
  "demo_summary =
    \<lparr>s_auditId = 0, s_totalUsers = 4, s_usersWithPublicFiles = 1, s_totalFiles = 2,
     s_results = a_results demo_audit\<rparr>"

definition demo_db :: db where
  "demo_db = \<lparr>driveAudits = [demo_audit], driveConnections = [], next_id = 1\<rparr>"

definition demo_scan :: "string \<Rightarrow> (error + file_record list) option" where
  "demo_scan = getPubliclySharedFiles demo_world ''example.com'' ''admin@example.com''"






definition hidden_owner_file :: api_file where
  "hidden_owner_file =
    (demo_file ''f5'' [demo_perm ''anyone'' None])\<lparr>f_owners := Some [\<lparr>emailAddress = None\<rparr>]\<rparr>"

definition empty_owner_file :: api_file where
  "empty_owner_file =
    (demo_file ''f6'' [demo_perm ''anyone'' None])\<lparr>f_owners := Some [\<lparr>emailAddress = Some []\<rparr>]\<rparr>"

text \<open>
  A store with 104 audit records, stamped in the order of their identifiers; those with
  an even identifier belong to \<open>example.com\<close>, the others to \<open>other.org\<close>.
\<close>

definition history_doc :: "nat \<Rightarrow> audit_doc" where
  "history_doc i =
    \<lparr>a_id = i, a_creationTime = 100 + i,
     a_domain = (if even i then ''example.com'' else ''other.org''),
     a_totalUsers = 4, a_totalFiles = 0, a_results = [], a_createdAt = 100 + i\<rparr>"

definition history_db :: db where
  "history_db = \<lparr>driveAudits = map history_doc [0..<104], driveConnections = [], next_id = 104\<rparr>"

section \<open>Properties\<close>

subsection \<open>The pagination loops\<close>

lemma users_loop_fetched:
  "fetched list tok xs \<Longrightarrow> users_loop list tok acc = Some (Inr (acc @ xs))"
proof (induction arbitrary: acc rule: fetched.induct)
  case (last_page tok pg)
  then show ?case
    by (subst users_loop.simps) (simp add: page_items_def split: option.splits)
next
  case (next_page tok pg rest)
  then show ?case
    by (subst users_loop.simps) (simp add: page_items_def split: option.splits)
qed

lemma users_loop_fails:
  "fetch_fails list tok e \<Longrightarrow> users_loop list tok acc = Some (Inl e)"
proof (induction arbitrary: acc rule: fetch_fails.induct)
  case (this_page tok e)
  then show ?case by (subst users_loop.simps) simp
next
  case (later_page tok pg e)
  then show ?case by (subst users_loop.simps) simp
qed

lemma files_loop_fetched:
  "fetched list tok xs \<Longrightarrow>
   files_loop list d tok acc = Some (Inr (acc @ filter (publicly_accessible d) xs))"
proof (induction arbitrary: acc rule: fetched.induct)
  case (last_page tok pg)
  then show ?case
    by (subst files_loop.simps) (simp add: page_items_def split: option.splits)
next
  case (next_page tok pg rest)
  then show ?case
    by (subst files_loop.simps) (simp add: page_items_def split: option.splits)
qed

lemma files_loop_fails:
  "fetch_fails list tok e \<Longrightarrow> files_loop list d tok acc = Some (Inl e)"
proof (induction arbitrary: acc rule: fetch_fails.induct)
  case (this_page tok e)
  then show ?case by (subst files_loop.simps) simp
next
  case (later_page tok pg e)
  then show ?case by (subst files_loop.simps) simp
qed

text \<open>Conversely, a loop that returns has made one of these two walks.\<close>

lemma users_loop_returns:
  assumes "users_loop list tok acc = Some r"
  shows "(\<exists>xs. fetched list tok xs \<and> r = Inr (acc @ xs)) \<or>
         (\<exists>e. fetch_fails list tok e \<and> r = Inl e)"
proof (rule users_loop.raw_induct
    [where P = "\<lambda>list tok acc r. (\<exists>xs. fetched list tok xs \<and> r = Inr (acc @ xs)) \<or>
                                  (\<exists>e. fetch_fails list tok e \<and> r = Inl e)", OF _ assms])
  fix loop list tok and acc :: "api_user list" and r
  assume 1:
    "\<And>list tok acc r. loop list tok acc = Some r \<Longrightarrow>
       (\<exists>xs. fetched list tok xs \<and> r = Inr (acc @ xs)) \<or>
       (\<exists>e. fetch_fails list tok e \<and> r = Inl e)"
    "(case list tok of
        Inl e \<Rightarrow> Some (Inl e)
      | Inr response \<Rightarrow>
          let users' = case items response of None \<Rightarrow> acc | Some us \<Rightarrow> acc @ us;
              pageToken' = nextPageToken response
          in if truthy pageToken' then loop list pageToken' users' else Some (Inr users'))
      = Some r"
  show "(\<exists>xs. fetched list tok xs \<and> r = Inr (acc @ xs)) \<or>
        (\<exists>e. fetch_fails list tok e \<and> r = Inl e)"
  proof (cases "list tok")
    case (Inl e)
    with 1(2) show ?thesis by (auto intro: fetch_fails.this_page)
  next
    case (Inr pg)
    show ?thesis
    proof (cases "truthy (nextPageToken pg)")
      case False
      with Inr 1(2) have "r = Inr (acc @ page_items pg)"
        by (auto simp: page_items_def split: option.splits)
      with Inr False show ?thesis by (auto intro: fetched.last_page)
    next
      case True
      with Inr 1(2) have "loop list (nextPageToken pg) (acc @ page_items pg) = Some r"
        by (auto simp: page_items_def split: option.splits)
      then consider
          xs where "fetched list (nextPageToken pg) xs" "r = Inr ((acc @ page_items pg) @ xs)"
        | e where "fetch_fails list (nextPageToken pg) e" "r = Inl e"
        using 1(1) by blast
      then show ?thesis
      proof cases
        case 1
        from fetched.next_page[OF Inr True 1(1)] 1(2) show ?thesis by auto
      next
        case 2
        from fetch_fails.later_page[OF Inr True 2(1)] 2(2) show ?thesis by auto
      qed
    qed
  qed
qed

lemma files_loop_returns:
  assumes "files_loop list d tok acc = Some r"
  shows "(\<exists>xs. fetched list tok xs \<and> r = Inr (acc @ filter (publicly_accessible d) xs)) \<or>
         (\<exists>e. fetch_fails list tok e \<and> r = Inl e)"
proof (rule files_loop.raw_induct
    [where P = "\<lambda>list d tok acc r.
        (\<exists>xs. fetched list tok xs \<and> r = Inr (acc @ filter (publicly_accessible d) xs)) \<or>
        (\<exists>e. fetch_fails list tok e \<and> r = Inl e)", OF _ assms])
  fix loop list d tok and acc :: "api_file list" and r
  assume 1:
    "\<And>list d tok acc r. loop list d tok acc = Some r \<Longrightarrow>
       (\<exists>xs. fetched list tok xs \<and> r = Inr (acc @ filter (publicly_accessible d) xs)) \<or>
       (\<exists>e. fetch_fails list tok e \<and> r = Inl e)"
    "(case list tok of
        Inl e \<Rightarrow> Some (Inl e)
      | Inr response \<Rightarrow>
          let files' = case items response of
                         None \<Rightarrow> acc
                       | Some fs \<Rightarrow> acc @ filter (publicly_accessible d) fs;
              pageToken' = nextPageToken response
          in if truthy pageToken' then loop list d pageToken' files' else Some (Inr files'))
      = Some r"
  show "(\<exists>xs. fetched list tok xs \<and> r = Inr (acc @ filter (publicly_accessible d) xs)) \<or>
        (\<exists>e. fetch_fails list tok e \<and> r = Inl e)"
  proof (cases "list tok")
    case (Inl e)
    with 1(2) show ?thesis by (auto intro: fetch_fails.this_page)
  next
    case (Inr pg)
    show ?thesis
    proof (cases "truthy (nextPageToken pg)")
      case False
      with Inr 1(2) have "r = Inr (acc @ filter (publicly_accessible d) (page_items pg))"
        by (auto simp: page_items_def split: option.splits)
      with Inr False show ?thesis by (auto intro: fetched.last_page)
    next
      case True
      with Inr 1(2) have
        "loop list d (nextPageToken pg) (acc @ filter (publicly_accessible d) (page_items pg))
           = Some r"
        by (auto simp: page_items_def split: option.splits)
      then consider
          xs where "fetched list (nextPageToken pg) xs"
            "r = Inr ((acc @ filter (publicly_accessible d) (page_items pg)) @
                      filter (publicly_accessible d) xs)"
        | e where "fetch_fails list (nextPageToken pg) e" "r = Inl e"
        using 1(1) by blast
      then show ?thesis
      proof cases
        case 1
        from fetched.next_page[OF Inr True 1(1)] 1(2) show ?thesis by auto
      next
        case 2
        from fetch_fails.later_page[OF Inr True 2(1)] 2(2) show ?thesis by auto
      qed
    qed
  qed
qed

text \<open>A walk has one outcome.\<close>

lemma fetched_unique: "fetched list tok xs \<Longrightarrow> fetched list tok ys \<Longrightarrow> xs = ys"
proof (induction arbitrary: ys rule: fetched.induct)
  case (last_page tok pg)
  from last_page(3) last_page(1,2) show ?case
    by (cases rule: fetched.cases) auto
next
  case (next_page tok pg rest)
  from next_page(5) next_page(1,2) next_page(4) show ?case
    by (cases rule: fetched.cases) auto
qed

lemma fetched_not_fails: "fetched list tok xs \<Longrightarrow> \<not> fetch_fails list tok e"
proof (induction rule: fetched.induct)
  case (last_page tok pg)
  then show ?case by (auto elim: fetch_fails.cases)
next
  case (next_page tok pg rest)
  then show ?case by (auto elim: fetch_fails.cases)
qed

subsection \<open>The actions on top of the loops\<close>

lemma getDomainUsers_fetched:
  assumes "initializeAdminService w domain adminUser = Inr admin"
    and "fetched (users_request_of w admin domain) None raw"
  shows "getDomainUsers w domain adminUser =
    Some (Inr (map (\<lambda>user. \<lparr>du_email = primaryEmail user, du_name = fullName user,
                              du_id = user_id user, du_suspended = u_suspended user\<rparr>) raw))"
  using users_loop_fetched[OF assms(2), of "[]"] assms(1)
  by (simp add: getDomainUsers_def)

lemma getDomainUsers_fails:
  assumes "initializeAdminService w domain adminUser = Inr admin"
    and "fetch_fails (users_request_of w admin domain) None e"
  shows "getDomainUsers w domain adminUser =
    Some (Inl (Error (''Failed to fetch domain users: '' @ message e)))"
  using users_loop_fails[OF assms(2), of "[]"] assms(1)
  by (simp add: getDomainUsers_def)

lemma getPubliclySharedFiles_fetched:
  assumes "impersonate w userEmail = Inr auth"
    and "fetched (files_request_of w auth) None raw"
  shows "getPubliclySharedFiles w domain adminUser userEmail =
    Some (Inr (map (to_file_record userEmail) (filter (publicly_accessible domain) raw)))"
  using files_loop_fetched[OF assms(2), of domain "[]"] assms(1)
  by (simp add: getPubliclySharedFiles_def)

lemma getPubliclySharedFiles_fails:
  assumes "impersonate w userEmail = Inr auth"
    and "fetch_fails (files_request_of w auth) None e"
  shows "getPubliclySharedFiles w domain adminUser userEmail =
    Some (Inl (Error (''Failed to fetch files for '' @ userEmail @ '': '' @ message e)))"
  using files_loop_fails[OF assms(2), of domain "[]"] assms(1)
  by (simp add: getPubliclySharedFiles_def)

text \<open>Whether a file is kept can be read off the record made from it.\<close>

lemma publicly_accessible_record:
  "publicly_accessible domain f \<longleftrightarrow>
     (\<exists>rs. fr_permissions (to_file_record userEmail f) = Some rs \<and>
       (\<exists>r\<in>set rs. pr_type r = Some ''anyone'' \<or>
                     (pr_type r = Some ''domain'' \<and> pr_domain r = Some domain)))"
  by (cases "f_permissions f")
     (auto simp: publicly_accessible_def to_file_record_def public_permission_def list_ex_iff)

lemma publicly_accessible_cong:
  assumes "to_file_record userEmail f = to_file_record userEmail g"
  shows "publicly_accessible domain f = publicly_accessible domain g"
  using assms
    publicly_accessible_record[where domain = domain and f = f and userEmail = userEmail]
    publicly_accessible_record[where domain = domain and f = g and userEmail = userEmail]
  by simp

subsection \<open>The loop over the directory\<close>

lemma scan_entries_skip:
  "du_suspended u \<Longrightarrow> scan_entries scan u = []"
  "scan (du_email u) = None \<Longrightarrow> scan_entries scan u = []"
  "scan (du_email u) = Some (Inl e) \<Longrightarrow> scan_entries scan u = []"
  "scan (du_email u) = Some (Inr []) \<Longrightarrow> scan_entries scan u = []"
  by (simp_all add: scan_entries_def)

lemma scan_entries_keep:
  "\<not> du_suspended u \<Longrightarrow> scan (du_email u) = Some (Inr fs) \<Longrightarrow> fs \<noteq> [] \<Longrightarrow>
     scan_entries scan u =
       [\<lparr>ua_user = du_email u, ua_userName = du_name u,
         ua_fileCount = length fs, ua_files = fs\<rparr>]"
  by (simp add: scan_entries_def)

lemma audit_loop_eq:
  "audit_loop scan users acc tf =
    (if list_all (\<lambda>u. du_suspended u \<or> scan_returns scan u) users
     then Some (acc @ concat (map (scan_entries scan) users),
                tf + sum_list (map ua_fileCount (concat (map (scan_entries scan) users))))
     else None)"
proof (induction users arbitrary: acc tf)
  case Nil
  then show ?case by simp
next
  case (Cons u users)
  show ?case
  proof (cases "du_suspended u")
    case True
    then show ?thesis by (simp add: Cons.IH scan_entries_skip)
  next
    case False
    show ?thesis
    proof (cases "scan (du_email u)")
      case None
      with False show ?thesis by (simp add: scan_returns_def)
    next
      case (Some r)
      show ?thesis
      proof (cases r)
        case (Inl e)
        with Some False show ?thesis
          by (simp add: Cons.IH scan_entries_skip scan_returns_def)
      next
        case (Inr fs)
        show ?thesis
        proof (cases "fs = []")
          case True
          with Inr Some False show ?thesis
            by (simp add: Cons.IH scan_entries_skip scan_returns_def)
        next
          case nonempty: False
          with Inr Some False show ?thesis
            by (simp add: Cons.IH scan_entries_keep scan_returns_def)
        qed
      qed
    qed
  qed
qed


lemma scan_entries_raises:
  "concat (map (scan_entries scan) (filter (\<lambda>u. \<not> scan_raises scan u) users)) =
   concat (map (scan_entries scan) users)"
proof (induction users)
  case Nil
  then show ?case by simp
next
  case (Cons u users)
  then show ?case
    by (cases "scan_raises scan u")
       (auto simp: scan_raises_def scan_entries_skip split: option.splits sum.splits)
qed


lemma scan_entries_length: "length (concat (map (scan_entries scan) users)) \<le> length users"
proof (induction users)
  case Nil
  then show ?case by simp
next
  case (Cons u users)
  have "length (scan_entries scan u) \<le> 1"
    by (simp add: scan_entries_def split: option.splits sum.splits)
  with Cons.IH show ?case by simp
qed

subsection \<open>A whole run\<close>

lemma runDomainAudit_completes:
  assumes "getDomainUsers w domain adminUser = Some (Inr users)"
    and "list_all (\<lambda>u. du_suspended u \<or>
           scan_returns (getPubliclySharedFiles w domain adminUser) u) users"
  shows "runDomainAudit w now domain adminUser d =
    Some (Inr \<lparr>s_auditId = next_id d,
               s_totalUsers = length users,
               s_usersWithPublicFiles =
                 length (a_results (expected_audit (getPubliclySharedFiles w domain adminUser)
                                      now domain users d)),
               s_totalFiles =
                 a_totalFiles (expected_audit (getPubliclySharedFiles w domain adminUser)
                                 now domain users d),
               s_results =
                 a_results (expected_audit (getPubliclySharedFiles w domain adminUser)
                              now domain users d)\<rparr>,
          d\<lparr>driveAudits := driveAudits d @
               [expected_audit (getPubliclySharedFiles w domain adminUser) now domain users d],
            next_id := Suc (next_id d)\<rparr>)"
  using assms
  by (simp add: runDomainAudit_def audit_loop_eq storeAuditResults_def expected_audit_def
      Let_def)

lemma runDomainAudit_fails:
  assumes "getDomainUsers w domain adminUser = Some (Inl e)"
  shows "runDomainAudit w now domain adminUser d =
    Some (Inl (Error (''Domain audit failed: '' @ message e)), d)"
  using assms by (simp add: runDomainAudit_def)

lemma runDomainAudit_returns:
  assumes "runDomainAudit w now domain adminUser d = Some (Inr s, d')"
  obtains users where "getDomainUsers w domain adminUser = Some (Inr users)"
    and "list_all (\<lambda>u. du_suspended u \<or>
           scan_returns (getPubliclySharedFiles w domain adminUser) u) users"
proof -
  from assms obtain users where u: "getDomainUsers w domain adminUser = Some (Inr users)"
    by (auto simp: runDomainAudit_def split: option.splits sum.splits)
  with assms have
    "audit_loop (getPubliclySharedFiles w domain adminUser) users [] 0 \<noteq> None"
    by (auto simp: runDomainAudit_def split: option.splits)
  then have "list_all (\<lambda>u. du_suspended u \<or>
           scan_returns (getPubliclySharedFiles w domain adminUser) u) users"
    by (simp add: audit_loop_eq split: if_splits)
  with u that show thesis by blast
qed

subsection \<open>The small organisation, evaluated\<close>

lemma demo_admin: "initializeAdminService demo_world domain adminUser = Inr (demo_auth adminUser)"
  by (simp add: initializeAdminService_def demo_world_def key_text_def demo_parse_def
      demo_auth_def truthy_def demo_key_def JSON_parse_def json_start_def
      json_whitespace_def dq_def)

lemma demo_impersonate: "impersonate demo_world userEmail = Inr (demo_auth userEmail)"
  by (simp add: impersonate_def demo_world_def key_text_def demo_parse_def demo_auth_def
      demo_key_def JSON_parse_def json_start_def json_whitespace_def dq_def)

lemma demo_directory_listed:
  "getDomainUsers demo_world ''example.com'' ''admin@example.com'' = Some (Inr demo_directory)"
  by code_simp

lemma demo_alice_fetched:
  "fetched (files_request_of demo_world (demo_auth ''alice@example.com'')) None alice_files"
proof -
  let ?list = "files_request_of demo_world (demo_auth ''alice@example.com'')"
  let ?p1 = "\<lparr>items = Some (take 2 alice_files), nextPageToken = Some ''n2''\<rparr>"
  let ?p2 = "\<lparr>items = Some (drop 2 alice_files), nextPageToken = None\<rparr>"
  have 1: "?list None = Inr ?p1"
    by (simp add: files_request_of_def demo_world_def demo_files_list_def demo_auth_def
        alice_files_def)
  have 2: "?list (Some ''n2'') = Inr ?p2"
    by (simp add: files_request_of_def demo_world_def demo_files_list_def demo_auth_def
        alice_files_def)
  have "fetched ?list (Some ''n2'') (page_items ?p2)"
    by (rule fetched.last_page[where list = ?list and tok = "Some ''n2''", OF 2])
       (simp add: truthy_def)
  then have "fetched ?list (nextPageToken ?p1) (page_items ?p2)" by simp
  from fetched.next_page[where list = ?list and tok = None, OF 1 _ this] have "fetched ?list None (page_items ?p1 @ page_items ?p2)"
    by (simp add: truthy_def)
  then show ?thesis by (simp add: page_items_def)
qed

lemma demo_net_fails:
  "fetch_fails (users_request_of demo_world (demo_auth ''admin@example.com'') ''example.net'')
     None (Error ''Backend Error'')"
proof -
  let ?list = "users_request_of demo_world (demo_auth ''admin@example.com'') ''example.net''"
  let ?p1 = "\<lparr>items = Some [demo_user ''erin@example.net'' ''Erin'' False],
              nextPageToken = Some ''p2''\<rparr>"
  have 1: "?list None = Inr ?p1"
    by (simp add: users_request_of_def demo_world_def demo_users_list_def demo_auth_def)
  have 2: "?list (Some ''p2'') = Inl (Error ''Backend Error'')"
    by (simp add: users_request_of_def demo_world_def demo_users_list_def demo_auth_def)
  have "fetch_fails ?list (nextPageToken ?p1) (Error ''Backend Error'')"
    using fetch_fails.this_page[where list = ?list and tok = "Some ''p2''", OF 2] by simp
  from fetch_fails.later_page[where list = ?list and tok = None, OF 1 _ this] show ?thesis by (simp add: truthy_def)
qed

lemma demo_scans:
  "demo_scan ''alice@example.com'' = Some (Inr alice_records)"
  "demo_scan ''bob@example.com'' =
     Some (Inl (Error ''Failed to fetch files for bob@example.com: Rate Limit Exceeded''))"
  "demo_scan ''dave@example.com'' = Some (Inr [])"
  by code_simp+

lemma demo_scans_return:
  "list_all (\<lambda>u. du_suspended u \<or> scan_returns demo_scan u) demo_directory"
  by (simp add: demo_directory_def scan_returns_def demo_scans)

lemma demo_run:
  "runDomainAudit demo_world 1000 ''example.com'' ''admin@example.com'' empty_db =
     Some (Inr demo_summary, demo_db)"
  by code_simp

lemma demo_entries:
  "concat (map (scan_entries demo_scan) demo_directory) = a_results demo_audit"
  by (simp add: demo_directory_def scan_entries_def demo_scans demo_audit_def alice_records_def)

section \<open>The audit run\<close>

text \<open>
  C1. Every audit record that \<^verbatim>\<open>runDomainAudit\<close> builds and stores satisfies
  \<open>totalFiles = sum of fileCount over results\<close>: a run that returns has appended exactly
  one record to the audit table, and its stored total (which is also the total handed
  back to the caller) is the sum of the file counts of its result entries.
\<close>

theorem stored_total_is_sum_of_file_counts:
  assumes "runDomainAudit w now domain adminUser d = Some (Inr s, d')"
  shows "\<exists>run. driveAudits d' = driveAudits d @ [run] \<and>
               a_totalFiles run = sum_list (map ua_fileCount (a_results run)) \<and>
               s_totalFiles s = a_totalFiles run \<and> s_results s = a_results run"
proof -
  from assms obtain users where
    "getDomainUsers w domain adminUser = Some (Inr users)"
    "list_all (\<lambda>u. du_suspended u \<or>
        scan_returns (getPubliclySharedFiles w domain adminUser) u) users"
    by (rule runDomainAudit_returns)
  from runDomainAudit_completes[OF this, of now d] assms
  show ?thesis by (auto simp: expected_audit_def Let_def)
qed

theorem stored_total_is_sum_of_file_counts_witness:
  "runDomainAudit demo_world 1000 ''example.com'' ''admin@example.com'' empty_db =
     Some (Inr demo_summary, demo_db) \<and>
   driveAudits demo_db = driveAudits empty_db @ [demo_audit] \<and>
   a_totalFiles demo_audit = sum_list (map ua_fileCount (a_results demo_audit)) \<and>
   a_totalFiles demo_audit = 2"
  using stored_total_is_sum_of_file_counts[OF demo_run] demo_run
  by (auto simp: demo_db_def empty_db_def demo_audit_def)

section \<open>Scanning\<close>

text \<open>
  C2. Let \<open>raw\<close> be the files the file-listing service hands back, page after page,
  during a scan of user \<open>userEmail\<close> for the audited domain \<open>domain\<close>. Then the scan
  returns, its result is the list of records made from the files of \<open>raw\<close> that pass the
  permission test, in the order of \<open>raw\<close>, and a file of \<open>raw\<close> appears in the result
  if and only if one of its permission entries has type \<open>anyone\<close>, or has type \<open>domain\<close>
  with its domain field equal to \<open>domain\<close>. A file none of whose entries passes is left
  out although the visibility search of the service returned it.
\<close>

theorem scan_keeps_exactly_the_public_files:
  assumes "impersonate w userEmail = Inr auth"
    and "fetched (files_request_of w auth) None raw"
  shows "\<exists>result.
      getPubliclySharedFiles w domain adminUser userEmail = Some (Inr result) \<and>
      result = map (to_file_record userEmail) (filter (publicly_accessible domain) raw) \<and>
      (\<forall>f\<in>set raw.
         to_file_record userEmail f \<in> set result \<longleftrightarrow>
           (\<exists>ps. f_permissions f = Some ps \<and>
             (\<exists>p\<in>set ps. p_type p = Some ''anyone'' \<or>
                           (p_type p = Some ''domain'' \<and> p_domain p = Some domain))))"
proof -
  let ?result = "map (to_file_record userEmail) (filter (publicly_accessible domain) raw)"
  have returned: "getPubliclySharedFiles w domain adminUser userEmail = Some (Inr ?result)"
    by (rule getPubliclySharedFiles_fetched[OF assms])
  have test: "publicly_accessible domain f \<longleftrightarrow>
           (\<exists>ps. f_permissions f = Some ps \<and>
             (\<exists>p\<in>set ps. p_type p = Some ''anyone'' \<or>
                           (p_type p = Some ''domain'' \<and> p_domain p = Some domain)))" for f
    by (cases "f_permissions f")
       (auto simp: publicly_accessible_def public_permission_def list_ex_iff)
  have "to_file_record userEmail f \<in> set ?result \<longleftrightarrow> publicly_accessible domain f"
    if "f \<in> set raw" for f
  proof
    assume "to_file_record userEmail f \<in> set ?result"
    then obtain g where "publicly_accessible domain g"
      "to_file_record userEmail f = to_file_record userEmail g"
      by auto
    then show "publicly_accessible domain f"
      using publicly_accessible_cong[of userEmail f g domain] by simp
  next
    assume "publicly_accessible domain f"
    with that show "to_file_record userEmail f \<in> set ?result" by auto
  qed
  with returned test show ?thesis by simp
qed

theorem scan_keeps_exactly_the_public_files_witness:
  "impersonate demo_world ''alice@example.com'' = Inr (demo_auth ''alice@example.com'') \<and>
   fetched (files_request_of demo_world (demo_auth ''alice@example.com'')) None alice_files \<and>
   getPubliclySharedFiles demo_world ''example.com'' ''admin@example.com'' ''alice@example.com''
     = Some (Inr alice_records) \<and>
   to_file_record ''alice@example.com'' (alice_files ! 0) \<in> set alice_records \<and>
   to_file_record ''alice@example.com'' (alice_files ! 1) \<notin> set alice_records \<and>
   to_file_record ''alice@example.com'' (alice_files ! 2) \<in> set alice_records \<and>
   to_file_record ''alice@example.com'' (alice_files ! 3) \<notin> set alice_records"
proof -
  from scan_keeps_exactly_the_public_files[OF demo_impersonate demo_alice_fetched,
      of "''example.com''" "''admin@example.com''"]
  obtain result where
    r: "getPubliclySharedFiles demo_world ''example.com'' ''admin@example.com''
          ''alice@example.com'' = Some (Inr result)"
    and m: "\<forall>f\<in>set alice_files.
         to_file_record ''alice@example.com'' f \<in> set result \<longleftrightarrow>
           (\<exists>ps. f_permissions f = Some ps \<and>
             (\<exists>p\<in>set ps. p_type p = Some ''anyone'' \<or>
                           (p_type p = Some ''domain'' \<and> p_domain p = Some ''example.com'')))"
    by blast
  from r have "result = alice_records"
    using demo_scans(1) by (simp add: demo_scan_def)
  with m r show ?thesis
    using demo_impersonate demo_alice_fetched
    by (simp add: alice_files_def demo_file_def demo_perm_def)
qed

section \<open>Failures during a run\<close>

text \<open>
  C3. A scan that raises does not abort the run. Whenever the directory was listed and
  the scan of every user who is not suspended comes back (with files or with an error),
  \<^verbatim>\<open>runDomainAudit\<close> returns normally and has stored one new audit record. The
  results of that record are the entries of the users whose scans did not raise, in
  directory order: they are what the same directory without the failing users gives.
  Its total is the sum over these entries, and its user count is still the length of
  the whole directory.
\<close>

theorem failed_scan_does_not_abort_the_run:
  assumes "getDomainUsers w domain adminUser = Some (Inr users)"
    and "list_all (\<lambda>u. du_suspended u \<or>
           scan_returns (getPubliclySharedFiles w domain adminUser) u) users"
  shows "\<exists>s run.
      runDomainAudit w now domain adminUser d =
        Some (Inr s, d\<lparr>driveAudits := driveAudits d @ [run], next_id := Suc (next_id d)\<rparr>) \<and>
      a_results run =
        concat (map (scan_entries (getPubliclySharedFiles w domain adminUser))
                  (filter (\<lambda>u. \<not> scan_raises (getPubliclySharedFiles w domain adminUser) u)
                     users)) \<and>
      a_totalFiles run = sum_list (map ua_fileCount (a_results run)) \<and>
      a_totalUsers run = length users \<and>
      a_domain run = domain \<and>
      s_results s = a_results run \<and> s_totalFiles s = a_totalFiles run"
proof -
  let ?scan = "getPubliclySharedFiles w domain adminUser"
  let ?run = "expected_audit ?scan now domain users d"
  have "a_results ?run =
      concat (map (scan_entries ?scan) (filter (\<lambda>u. \<not> scan_raises ?scan u) users))"
    by (simp add: expected_audit_def Let_def scan_entries_raises)
  moreover have "a_totalFiles ?run = sum_list (map ua_fileCount (a_results ?run))"
    "a_totalUsers ?run = length users" "a_domain ?run = domain"
    by (simp_all add: expected_audit_def Let_def)
  ultimately show ?thesis
    using runDomainAudit_completes[OF assms, of now d] by auto
qed

theorem failed_scan_does_not_abort_the_run_witness:
  "getDomainUsers demo_world ''example.com'' ''admin@example.com'' = Some (Inr demo_directory) \<and>
   list_all (\<lambda>u. du_suspended u \<or> scan_returns demo_scan u) demo_directory \<and>
   scan_raises demo_scan (demo_directory ! 1) \<and>
   (\<exists>s run.
      runDomainAudit demo_world 1000 ''example.com'' ''admin@example.com'' empty_db =
        Some (Inr s, empty_db\<lparr>driveAudits := driveAudits empty_db @ [run],
                                next_id := Suc (next_id empty_db)\<rparr>) \<and>
      a_results run =
        concat (map (scan_entries demo_scan)
                  (filter (\<lambda>u. \<not> scan_raises demo_scan u) demo_directory)) \<and>
      a_totalFiles run = 2 \<and> a_totalUsers run = 4)"
proof -
  have raises: "scan_raises demo_scan (demo_directory ! 1)"
    by (simp add: demo_directory_def scan_raises_def demo_scans)
  have entries: "concat (map (scan_entries demo_scan)
                  (filter (\<lambda>u. \<not> scan_raises demo_scan u) demo_directory)) =
                 a_results demo_audit"
    by (simp add: scan_entries_raises demo_entries)
  from failed_scan_does_not_abort_the_run
    [OF demo_directory_listed demo_scans_return[unfolded demo_scan_def], of 1000 empty_db]
  obtain s run where
    "runDomainAudit demo_world 1000 ''example.com'' ''admin@example.com'' empty_db =
        Some (Inr s, empty_db\<lparr>driveAudits := driveAudits empty_db @ [run],
                                next_id := Suc (next_id empty_db)\<rparr>)"
    "a_results run =
        concat (map (scan_entries demo_scan)
                  (filter (\<lambda>u. \<not> scan_raises demo_scan u) demo_directory))"
    "a_totalFiles run = sum_list (map ua_fileCount (a_results run))"
    "a_totalUsers run = length demo_directory"
    unfolding demo_scan_def[symmetric] by blast
  moreover from this(2,3) entries have "a_totalFiles run = 2"
    by (simp add: demo_audit_def)
  moreover have "length demo_directory = 4" by (simp add: demo_directory_def)
  ultimately show ?thesis
    using demo_directory_listed demo_scans_return raises by auto
qed

text \<open>
  C4. When a page request of the directory listing is answered by an error (the first
  page or any later one), \<^verbatim>\<open>runDomainAudit\<close> fails: the error that reaches the caller
  wraps the message of the listing failure, and the store that comes out is the store
  that went in, so no audit record has been written.
\<close>

theorem directory_failure_is_fatal:
  assumes "initializeAdminService w domain adminUser = Inr admin"
    and "fetch_fails (users_request_of w admin domain) None e"
  shows "getDomainUsers w domain adminUser =
           Some (Inl (Error (''Failed to fetch domain users: '' @ message e))) \<and>
         runDomainAudit w now domain adminUser d =
           Some (Inl (Error (''Domain audit failed: Failed to fetch domain users: '' @
                             message e)), d)"
  using getDomainUsers_fails[OF assms]
    runDomainAudit_fails[OF getDomainUsers_fails[OF assms], of now d]
  by simp

theorem directory_failure_is_fatal_witness:
  "initializeAdminService demo_world ''example.net'' ''admin@example.com'' =
     Inr (demo_auth ''admin@example.com'') \<and>
   fetch_fails (users_request_of demo_world (demo_auth ''admin@example.com'') ''example.net'')
     None (Error ''Backend Error'') \<and>
   runDomainAudit demo_world 2000 ''example.net'' ''admin@example.com'' demo_db =
     Some (Inl (Error ''Domain audit failed: Failed to fetch domain users: Backend Error''),
           demo_db)"
  using directory_failure_is_fatal[OF demo_admin demo_net_fails, of 2000 demo_db]
    demo_admin demo_net_fails
  by simp



section \<open>The store\<close>

subsection \<open>Connections\<close>

lemma first_doc_order_asc:
  "first_doc (order_asc creation []) = None"
  "first_doc (order_asc creation [c]) = Some c"
  by (simp_all add: first_doc_def order_asc_def)

lemma at_most_one_for_pair:
  "distinct (map (\<lambda>c. (c_userId c, c_domain c)) cs) \<Longrightarrow>
     length (filter (\<lambda>c. c_userId c = userId \<and> c_domain c = domain) cs) \<le> 1"
proof (induction cs)
  case Nil
  then show ?case by simp
next
  case (Cons c cs)
  show ?case
  proof (cases "c_userId c = userId \<and> c_domain c = domain")
    case True
    with Cons.prems have "(userId, domain) \<notin> (\<lambda>c. (c_userId c, c_domain c)) ` set cs"
      by auto
    then have "filter (\<lambda>c. c_userId c = userId \<and> c_domain c = domain) cs = []"
      by (auto simp: filter_empty_conv)
    with True show ?thesis by simp
  next
    case False
    with Cons.IH Cons.prems show ?thesis by auto
  qed
qed

lemma connections_for_cases:
  assumes "one_connection_per_pair d"
  obtains "connections_for userId domain d = []"
  | c where "connections_for userId domain d = [c]"
proof -
  from assms have "length (connections_for userId domain d) \<le> 1"
    unfolding one_connection_per_pair_def connections_for_def by (rule at_most_one_for_pair)
  then show thesis
    using that by (cases "connections_for userId domain d") auto
qed

lemma connections_for_patch:
  assumes "\<And>c. c_userId (upd c) = c_userId c \<and> c_domain (upd c) = c_domain c"
  shows "connections_for userId domain (patch_connection cid upd d) =
         map (\<lambda>c. if c_id c = cid then upd c else c) (connections_for userId domain d)"
  unfolding connections_for_def patch_connection_def
  by (induction "driveConnections d" arbitrary: d) (simp_all add: assms filter_map o_def)

lemma one_connection_per_pair_patch:
  assumes "\<And>c. c_userId (upd c) = c_userId c \<and> c_domain (upd c) = c_domain c"
    and "one_connection_per_pair d"
  shows "one_connection_per_pair (patch_connection cid upd d)"
proof -
  have "(\<lambda>c. (c_userId c, c_domain c)) \<circ> (\<lambda>c. if c_id c = cid then upd c else c) =
        (\<lambda>c. (c_userId c, c_domain c))"
    by (auto simp: fun_eq_iff assms(1))
  with assms(2) show ?thesis
    by (simp add: one_connection_per_pair_def patch_connection_def)
qed

text \<open>What one call of \<^verbatim>\<open>createDriveConnection\<close> does to a store that has the invariant.\<close>

lemma createDriveConnection_insert:
  assumes "connections_for userId domain d = []"
  shows "createDriveConnection now userId domain adminEmail d =
    (next_id d,
     d\<lparr>driveConnections := driveConnections d @
          [\<lparr>c_id = next_id d, c_creationTime = now, c_userId = userId,
            c_domain = domain, c_adminEmail = adminEmail, c_isActive = True,
            c_createdAt = now\<rparr>],
       next_id := Suc (next_id d)\<rparr>)"
  using assms
  by (simp add: createDriveConnection_def connections_for_def first_doc_order_asc)

lemma createDriveConnection_update:
  assumes "connections_for userId domain d = [c]"
  shows "createDriveConnection now userId domain adminEmail d =
    (c_id c,
     patch_connection (c_id c) (\<lambda>c. c\<lparr>c_adminEmail := adminEmail, c_isActive := True\<rparr>) d)"
  using assms
  by (simp add: createDriveConnection_def connections_for_def first_doc_order_asc)

lemma createDriveConnection_result:
  assumes "one_connection_per_pair d"
    and "createDriveConnection now userId domain adminEmail d = (cid, d')"
  shows "one_connection_per_pair d'"
    and "\<exists>c. connections_for userId domain d' = [c] \<and> c_id c = cid \<and>
             c_adminEmail c = adminEmail \<and> c_isActive c"
    and "connections_for userId domain d \<noteq> [] \<Longrightarrow>
           map c_id (driveConnections d') = map c_id (driveConnections d) \<and>
           cid = c_id (hd (connections_for userId domain d))"
proof -
  from assms(1) have
    "one_connection_per_pair d' \<and>
     (\<exists>c. connections_for userId domain d' = [c] \<and> c_id c = cid \<and>
             c_adminEmail c = adminEmail \<and> c_isActive c) \<and>
     (connections_for userId domain d \<noteq> [] \<longrightarrow>
           map c_id (driveConnections d') = map c_id (driveConnections d) \<and>
           cid = c_id (hd (connections_for userId domain d)))"
  proof (cases rule: connections_for_cases[where userId = userId and domain = domain])
    case 1
    from createDriveConnection_insert[OF 1, of now adminEmail] assms(2)
    have cid: "cid = next_id d"
      and d': "d' = d\<lparr>driveConnections := driveConnections d @
          [\<lparr>c_id = next_id d, c_creationTime = now, c_userId = userId,
            c_domain = domain, c_adminEmail = adminEmail, c_isActive = True,
            c_createdAt = now\<rparr>],
       next_id := Suc (next_id d)\<rparr>"
      by simp_all
    from 1 have "(userId, domain) \<notin> (\<lambda>c. (c_userId c, c_domain c)) ` set (driveConnections d)"
      by (auto simp: connections_for_def filter_empty_conv)
    with assms(1) have "one_connection_per_pair d'"
      by (simp add: d' one_connection_per_pair_def)
    moreover from 1 have "connections_for userId domain d' =
          [\<lparr>c_id = next_id d, c_creationTime = now, c_userId = userId,
            c_domain = domain, c_adminEmail = adminEmail, c_isActive = True,
            c_createdAt = now\<rparr>]"
      by (simp add: d' connections_for_def)
    ultimately show ?thesis using 1 cid by simp
  next
    case (2 c)
    let ?upd = "\<lambda>c. c\<lparr>c_adminEmail := adminEmail, c_isActive := True\<rparr>"
    from createDriveConnection_update[OF 2, of now adminEmail] assms(2)
    have cid: "cid = c_id c" and d': "d' = patch_connection (c_id c) ?upd d"
      by simp_all
    have keeps: "c_userId (?upd x) = c_userId x \<and> c_domain (?upd x) = c_domain x"
      for x :: connection_doc
      by simp
    have "one_connection_per_pair d'"
      unfolding d' by (rule one_connection_per_pair_patch[OF keeps assms(1)])
    moreover have "connections_for userId domain d' = [?upd c]"
      unfolding d' by (simp add: connections_for_patch[OF keeps] 2)
    moreover have "map c_id (driveConnections d') = map c_id (driveConnections d)"
      by (simp add: d' patch_connection_def o_def)
    ultimately show ?thesis using 2 cid by simp
  qed
  then show "one_connection_per_pair d'"
    and "\<exists>c. connections_for userId domain d' = [c] \<and> c_id c = cid \<and>
             c_adminEmail c = adminEmail \<and> c_isActive c"
    and "connections_for userId domain d \<noteq> [] \<Longrightarrow>
           map c_id (driveConnections d') = map c_id (driveConnections d) \<and>
           cid = c_id (hd (connections_for userId domain d))"
    by blast+
qed

lemma one_connection_per_pair_empty: "one_connection_per_pair empty_db"
  by (simp add: one_connection_per_pair_def empty_db_def)

lemma one_connection_per_pair_deactivate:
  "one_connection_per_pair d \<Longrightarrow> one_connection_per_pair (deactivateDriveConnection cid d)"
  unfolding deactivateDriveConnection_def
  by (rule one_connection_per_pair_patch) simp_all

lemma one_connection_per_pair_storeAuditResults:
  "one_connection_per_pair d \<Longrightarrow>
     one_connection_per_pair (snd (storeAuditResults now domain n m rs d))"
  by (simp add: one_connection_per_pair_def storeAuditResults_def Let_def)

text \<open>
  C6. Setting up the same owner and domain twice leaves exactly one connection for the
  pair; it carries the administrator identity of the second call and is active. The
  second call returns the identifier the first call returned and inserts nothing: the
  table has the same rows, by identifier, before and after it.
\<close>

theorem second_setup_updates_the_existing_connection:
  assumes "one_connection_per_pair d"
    and "createDriveConnection t1 userId domain admin1 d = (id1, d1)"
    and "createDriveConnection t2 userId domain admin2 d1 = (id2, d2)"
  shows "\<exists>c. connections_for userId domain d2 = [c] \<and>
             c_adminEmail c = admin2 \<and> c_isActive c \<and> c_id c = id2 \<and> id2 = id1 \<and>
             map c_id (driveConnections d2) = map c_id (driveConnections d1)"
proof -
  from createDriveConnection_result[OF assms(1,2)] obtain c1 where
    ok1: "one_connection_per_pair d1"
    and c1: "connections_for userId domain d1 = [c1]" "c_id c1 = id1"
    by blast
  from createDriveConnection_result(2)[OF ok1 assms(3)] obtain c where
    c: "connections_for userId domain d2 = [c]" "c_id c = id2"
       "c_adminEmail c = admin2" "c_isActive c"
    by blast
  from createDriveConnection_result(3)[OF ok1 assms(3)] c1
  have "map c_id (driveConnections d2) = map c_id (driveConnections d1)" "id2 = id1"
    by simp_all
  with c show ?thesis by simp
qed

theorem second_setup_updates_the_existing_connection_witness:
  "one_connection_per_pair empty_db \<and>
   createDriveConnection 10 ''user_1'' ''example.com'' ''a@example.com'' empty_db =
     (0, \<lparr>driveAudits = [],
          driveConnections =
            [\<lparr>c_id = 0, c_creationTime = 10, c_userId = ''user_1'', c_domain = ''example.com'',
              c_adminEmail = ''a@example.com'', c_isActive = True, c_createdAt = 10\<rparr>],
          next_id = 1\<rparr>) \<and>
   createDriveConnection 20 ''user_1'' ''example.com'' ''b@example.com''
     \<lparr>driveAudits = [],
      driveConnections =
        [\<lparr>c_id = 0, c_creationTime = 10, c_userId = ''user_1'', c_domain = ''example.com'',
          c_adminEmail = ''a@example.com'', c_isActive = True, c_createdAt = 10\<rparr>],
      next_id = 1\<rparr> =
     (0, \<lparr>driveAudits = [],
          driveConnections =
            [\<lparr>c_id = 0, c_creationTime = 10, c_userId = ''user_1'', c_domain = ''example.com'',
              c_adminEmail = ''b@example.com'', c_isActive = True, c_createdAt = 10\<rparr>],
          next_id = 1\<rparr>) \<and>
   (\<exists>c. connections_for ''user_1'' ''example.com''
          \<lparr>driveAudits = [],
           driveConnections =
            [\<lparr>c_id = 0, c_creationTime = 10, c_userId = ''user_1'', c_domain = ''example.com'',
              c_adminEmail = ''b@example.com'', c_isActive = True, c_createdAt = 10\<rparr>],
           next_id = 1\<rparr> = [c] \<and>
        c_adminEmail c = ''b@example.com'' \<and> c_isActive c \<and> c_id c = 0)"
proof -
  have 1: "createDriveConnection 10 ''user_1'' ''example.com'' ''a@example.com'' empty_db =
     (0, \<lparr>driveAudits = [],
          driveConnections =
            [\<lparr>c_id = 0, c_creationTime = 10, c_userId = ''user_1'', c_domain = ''example.com'',
              c_adminEmail = ''a@example.com'', c_isActive = True, c_createdAt = 10\<rparr>],
          next_id = 1\<rparr>)"
    by code_simp
  have 2: "createDriveConnection 20 ''user_1'' ''example.com'' ''b@example.com''
     \<lparr>driveAudits = [],
      driveConnections =
        [\<lparr>c_id = 0, c_creationTime = 10, c_userId = ''user_1'', c_domain = ''example.com'',
          c_adminEmail = ''a@example.com'', c_isActive = True, c_createdAt = 10\<rparr>],
      next_id = 1\<rparr> =
     (0, \<lparr>driveAudits = [],
          driveConnections =
            [\<lparr>c_id = 0, c_creationTime = 10, c_userId = ''user_1'', c_domain = ''example.com'',
              c_adminEmail = ''b@example.com'', c_isActive = True, c_createdAt = 10\<rparr>],
          next_id = 1\<rparr>)"
    by code_simp
  from second_setup_updates_the_existing_connection[OF one_connection_per_pair_empty 1 2]
    one_connection_per_pair_empty 1 2
  show ?thesis by simp
qed

section \<open>Configuration and set-up\<close>










lemma testDriveConnection_never_throws: "\<exists>r. testDriveConnection w domain adminUser = Inr r"
  by (simp add: testDriveConnection_def Let_def split: sum.splits)








lemma createDriveConnection_writes:
  "\<exists>cid d'. createDriveConnection now userId domain adminEmail d = (cid, d') \<and>
     (\<exists>c\<in>set (driveConnections d').
        c_id c = cid \<and> c_userId c = userId \<and> c_domain c = domain \<and>
        c_adminEmail c = adminEmail \<and> c_isActive c)"
proof (cases "first_doc (order_asc c_creationTime
                (filter (\<lambda>c. c_userId c = userId \<and> c_domain c = domain)
                   (driveConnections d)))")
  case None
  then show ?thesis by (simp add: createDriveConnection_def)
next
  case (Some existing)
  then have "existing \<in> set (order_asc c_creationTime
                (filter (\<lambda>c. c_userId c = userId \<and> c_domain c = domain)
                   (driveConnections d)))"
    by (auto simp: first_doc_def split: list.splits)
  then have mem: "existing \<in> set (driveConnections d)"
    and pair: "c_userId existing = userId" "c_domain existing = domain"
    by (simp_all add: order_asc_def)
  let ?upd = "\<lambda>c. c\<lparr>c_adminEmail := adminEmail, c_isActive := True\<rparr>"
  from mem have "?upd existing \<in>
      set (driveConnections (patch_connection (c_id existing) ?upd d))"
    by (force simp: patch_connection_def)
  with pair Some show ?thesis
    by (auto simp: createDriveConnection_def intro!: bexI[where x = "?upd existing"])
qed

text \<open>
  C8, as the code has it. The mutation does not look at its arguments: called with an
  empty domain and an empty administrator identity on the empty store, it returns an
  identifier and the store holds a connection with both fields empty.
\<close>

theorem blank_connection_is_stored_counterexample:
  "createDriveConnection 5 ''user_1'' [] [] empty_db =
     (0, \<lparr>driveAudits = [],
          driveConnections =
            [\<lparr>c_id = 0, c_creationTime = 5, c_userId = ''user_1'', c_domain = [],
              c_adminEmail = [], c_isActive = True, c_createdAt = 5\<rparr>],
          next_id = 1\<rparr>)"
  by code_simp

text \<open>
  C8, amended. The check for missing fields is made by the dashboard's set-up handler,
  not by the mutation. When the domain or the administrator identity is the empty string
  the handler shows "Please fill in all fields" and stops: whatever the outside world is,
  the connection test is not consulted, the form keeps its fields and the store is
  unchanged. The mutation \<^verbatim>\<open>createDriveConnection\<close> itself always returns a connection
  identifier and leaves a connection with the given owner, domain and administrator
  identity in the store.
\<close>

theorem blank_fields_are_stopped_by_the_form:
  "(domain = [] \<or> adminEmail = [] \<longrightarrow>
      handleCreateConnection w now user domain adminEmail d =
        (ToastError ''Please fill in all fields'', (domain, adminEmail), d)) \<and>
   (\<exists>cid d'. createDriveConnection now userId domain adminEmail d = (cid, d') \<and>
      (\<exists>c\<in>set (driveConnections d').
         c_id c = cid \<and> c_userId c = userId \<and> c_domain c = domain \<and>
         c_adminEmail c = adminEmail \<and> c_isActive c))"
proof
  show "domain = [] \<or> adminEmail = [] \<longrightarrow>
      handleCreateConnection w now user domain adminEmail d =
        (ToastError ''Please fill in all fields'', (domain, adminEmail), d)"
    by (cases user) (auto simp: handleCreateConnection_def)
  show "\<exists>cid d'. createDriveConnection now userId domain adminEmail d = (cid, d') \<and>
      (\<exists>c\<in>set (driveConnections d').
         c_id c = cid \<and> c_userId c = userId \<and> c_domain c = domain \<and>
         c_adminEmail c = adminEmail \<and> c_isActive c)"
    by (rule createDriveConnection_writes)
qed

theorem blank_fields_are_stopped_by_the_form_witness:
  "handleCreateConnection demo_world 5 (Some ''user_1'') [] ''admin@example.com'' empty_db =
     (ToastError ''Please fill in all fields'', ([], ''admin@example.com''), empty_db) \<and>
   handleCreateConnection demo_world 5 (Some ''user_1'') ''example.com'' [] empty_db =
     (ToastError ''Please fill in all fields'', (''example.com'', []), empty_db) \<and>
   fst (handleCreateConnection demo_world 5 (Some ''user_1'') ''example.com''
          ''admin@example.com'' empty_db) =
     ToastSuccess ''Google Drive connection created successfully!''"
proof -
  have "fst (handleCreateConnection demo_world 5 (Some ''user_1'') ''example.com''
          ''admin@example.com'' empty_db) =
     ToastSuccess ''Google Drive connection created successfully!''"
    by code_simp
  with blank_fields_are_stopped_by_the_form
         [of "[]" "''admin@example.com''" demo_world 5 "Some ''user_1''" empty_db]
       blank_fields_are_stopped_by_the_form
         [of "''example.com''" "[]" demo_world 5 "Some ''user_1''" empty_db]
  show ?thesis by simp
qed

section \<open>Audit history\<close>

lemma order_desc_newest_first:
  "sorted_wrt (\<lambda>a b. creation b \<le> creation a) (order_desc creation docs)"
proof -
  have "sorted (map creation (sort_key creation docs))" by simp
  then have "sorted_wrt (\<lambda>a b. creation a \<le> creation b) (sort_key creation docs)"
    by (simp add: sorted_map)
  then show ?thesis by (simp add: order_desc_def sorted_wrt_rev)
qed

lemma set_order_desc: "set (order_desc creation docs) = set docs"
  by (simp add: order_desc_def)

lemma length_order_desc: "length (order_desc creation docs) = length docs"
  by (simp add: order_desc_def)

lemma sorted_wrt_take_drop:
  assumes "sorted_wrt R xs" and "b \<in> set (take n xs)" and "a \<in> set (drop n xs)"
  shows "R b a"
proof -
  from assms(1) have "sorted_wrt R (take n xs @ drop n xs)" by simp
  with assms(2,3) show ?thesis unfolding sorted_wrt_append by blast
qed

text \<open>
  C9, as the code has it. The filter is applied only when the domain argument is truthy:
  with the empty string as domain, a record of another domain is returned.
\<close>

theorem empty_domain_is_no_filter_counterexample:
  "getAuditHistory (Some []) demo_db = [demo_audit] \<and> a_domain demo_audit = ''example.com''"
  by code_simp

text \<open>
  C9, amended. For every store and optional domain, \<^verbatim>\<open>getAuditHistory\<close> returns at
  most 50 stored audit records, newest first by the creation time the store stamped on
  them. When a non-empty domain is supplied, the domain field of every returned record
  equals it, and the result is the first 50 of the matching records in that order: a
  stored record of that domain that is not returned is no newer than any returned one,
  and then 50 records are returned. When the domain is omitted or is the empty string,
  every stored record counts as matching.
\<close>

theorem audit_history_is_the_newest_fifty:
  fixes domain :: "string option" and d :: db
  defines "matching \<equiv> (\<lambda>a. truthy domain \<longrightarrow> Some (a_domain a) = domain)"
  shows "length (getAuditHistory domain d) \<le> 50 \<and>
    sorted_wrt (\<lambda>a b. a_creationTime b \<le> a_creationTime a) (getAuditHistory domain d) \<and>
    set (getAuditHistory domain d) \<subseteq> {a \<in> set (driveAudits d). matching a} \<and>
    getAuditHistory domain d =
      take 50 (order_desc a_creationTime (filter matching (driveAudits d))) \<and>
    (\<forall>a\<in>set (driveAudits d). matching a \<and> a \<notin> set (getAuditHistory domain d) \<longrightarrow>
       length (getAuditHistory domain d) = 50 \<and>
       (\<forall>b\<in>set (getAuditHistory domain d). a_creationTime a \<le> a_creationTime b))"
proof -
  let ?all = "order_desc a_creationTime (filter matching (driveAudits d))"
  have eq: "getAuditHistory domain d = take 50 ?all"
    by (cases "truthy domain") (simp_all add: getAuditHistory_def matching_def)
  have sorted: "sorted_wrt (\<lambda>a b. a_creationTime b \<le> a_creationTime a) ?all"
    by (rule order_desc_newest_first)
  have "length (take 50 ?all) \<le> 50" by simp
  moreover have "sorted_wrt (\<lambda>a b. a_creationTime b \<le> a_creationTime a) (take 50 ?all)"
    using sorted by (rule sorted_wrt_take)
  moreover have "set (take 50 ?all) \<subseteq> {a \<in> set (driveAudits d). matching a}"
    using set_take_subset[of 50 ?all] by (auto simp: set_order_desc)
  moreover have "length (take 50 ?all) = 50 \<and>
       (\<forall>b\<in>set (take 50 ?all). a_creationTime a \<le> a_creationTime b)"
    if "a \<in> set (driveAudits d)" "matching a" "a \<notin> set (take 50 ?all)" for a
  proof -
    have "set ?all = set (take 50 ?all) \<union> set (drop 50 ?all)"
      by (metis append_take_drop_id set_append)
    moreover from that(1,2) have "a \<in> set ?all"
      by (simp add: set_order_desc)
    ultimately have dropped: "a \<in> set (drop 50 ?all)"
      using that(3) by blast
    then have "50 < length ?all" by (cases "50 < length ?all") auto
    then have "length (take 50 ?all) = 50" by simp
    moreover have "a_creationTime a \<le> a_creationTime b" if "b \<in> set (take 50 ?all)" for b
      using sorted_wrt_take_drop[OF sorted that dropped] .
    ultimately show ?thesis by blast
  qed
  ultimately show ?thesis unfolding eq by blast
qed

theorem audit_history_is_the_newest_fifty_witness:
  "truthy (Some ''example.com'') \<and>
   history_doc 2 \<in> set (driveAudits history_db) \<and>
   a_domain (history_doc 2) = ''example.com'' \<and>
   history_doc 2 \<notin> set (getAuditHistory (Some ''example.com'') history_db) \<and>
   length (getAuditHistory (Some ''example.com'') history_db) = 50 \<and>
   list_all (\<lambda>b. a_creationTime (history_doc 2) \<le> a_creationTime b \<and>
                  a_domain b = ''example.com'')
     (getAuditHistory (Some ''example.com'') history_db) \<and>
   map a_id (getAuditHistory (Some ''example.com'') history_db) =
     rev (map (\<lambda>i. 2 * i) [2..<52]) \<and>
   map a_id (getAuditHistory None history_db) = rev [54..<104]"
proof -
  have given: "truthy (Some ''example.com'')"
    "history_doc 2 \<in> set (driveAudits history_db)"
    "a_domain (history_doc 2) = ''example.com''"
    by (simp_all add: truthy_def history_db_def) (simp add: history_doc_def)
  have ids: "map a_id (getAuditHistory (Some ''example.com'') history_db) =
     rev (map (\<lambda>i. 2 * i) [2..<52])"
    "map a_id (getAuditHistory None history_db) = rev [54..<104]"
    by code_simp+
  have "a_id (history_doc 2) \<notin> set (map a_id (getAuditHistory (Some ''example.com'') history_db))"
    unfolding ids by (auto simp: history_doc_def)
  then have absent: "history_doc 2 \<notin> set (getAuditHistory (Some ''example.com'') history_db)"
    by force
  from audit_history_is_the_newest_fifty[of "Some ''example.com''" history_db] given absent
  have "length (getAuditHistory (Some ''example.com'') history_db) = 50"
    and "\<forall>b\<in>set (getAuditHistory (Some ''example.com'') history_db).
           a_creationTime (history_doc 2) \<le> a_creationTime b"
    and "\<forall>b\<in>set (getAuditHistory (Some ''example.com'') history_db).
           Some (a_domain b) = Some ''example.com''"
    by auto
  with given absent ids show ?thesis by (simp add: list_all_iff)
qed

section \<open>The owner of a reported file\<close>

lemma getPubliclySharedFiles_returns:
  assumes "getPubliclySharedFiles w domain adminUser userEmail = Some (Inr result)"
  obtains auth raw where "impersonate w userEmail = Inr auth"
    and "fetched (files_request_of w auth) None raw"
    and "result = map (to_file_record userEmail) (filter (publicly_accessible domain) raw)"
proof -
  from assms obtain auth where auth: "impersonate w userEmail = Inr auth"
    by (cases "impersonate w userEmail") (simp_all add: getPubliclySharedFiles_def)
  with assms obtain files where
    loop: "files_loop (files_request_of w auth) domain None [] = Some (Inr files)"
    and result: "result = map (to_file_record userEmail) files"
    by (auto simp: getPubliclySharedFiles_def split: option.splits sum.splits)
  from files_loop_returns[OF loop] obtain raw where
    "fetched (files_request_of w auth) None raw"
    "files = filter (publicly_accessible domain) raw"
    by auto
  with auth result that show thesis by blast
qed

text \<open>
  C10, as the code has it. The owner is taken from the first entry of the owners list
  only when that entry has a non-empty email address: for a file whose first owner shows
  no email address, or shows the empty string, the owner field is the scanned user.
\<close>

theorem owner_without_email_counterexample:
  "f_owners hidden_owner_file = Some [\<lparr>emailAddress = None\<rparr>] \<and>
   fr_owner (to_file_record ''bob@example.com'' hidden_owner_file) = ''bob@example.com'' \<and>
   f_owners empty_owner_file = Some [\<lparr>emailAddress = Some []\<rparr>] \<and>
   fr_owner (to_file_record ''bob@example.com'' empty_owner_file) = ''bob@example.com''"
  by code_simp

text \<open>
  C10, amended. Every record returned by a scan impersonating \<open>userEmail\<close> is made from
  a file the service listed and that passed the permission test, and its owner field is
  a string in every case: the email address of the first entry of the file's owners list
  when that list is present and non-empty and that entry has a non-empty email address,
  and \<open>userEmail\<close> otherwise.
\<close>

theorem owner_is_first_owner_email_or_scanned_user:
  assumes "getPubliclySharedFiles w domain adminUser userEmail = Some (Inr result)"
    and "r \<in> set result"
  shows "\<exists>auth raw f.
      impersonate w userEmail = Inr auth \<and> fetched (files_request_of w auth) None raw \<and>
      f \<in> set raw \<and> publicly_accessible domain f \<and> r = to_file_record userEmail f \<and>
      (\<forall>ow rest e. f_owners f = Some (ow # rest) \<and> emailAddress ow = Some e \<and> e \<noteq> []
          \<longrightarrow> fr_owner r = e) \<and>
      (f_owners f = None \<or> f_owners f = Some [] \<or>
       (\<exists>ow rest. f_owners f = Some (ow # rest) \<and>
                  (emailAddress ow = None \<or> emailAddress ow = Some []))
          \<longrightarrow> fr_owner r = userEmail)"
proof -
  from assms(1) obtain auth raw where
    auth: "impersonate w userEmail = Inr auth"
    and raw: "fetched (files_request_of w auth) None raw"
    and result: "result = map (to_file_record userEmail) (filter (publicly_accessible domain) raw)"
    by (rule getPubliclySharedFiles_returns)
  from assms(2) result obtain f where
    f: "f \<in> set raw" "publicly_accessible domain f" "r = to_file_record userEmail f"
    by auto
  have "fr_owner r = e"
    if "f_owners f = Some (ow # rest)" "emailAddress ow = Some e" "e \<noteq> []" for ow rest e
    using that f(3) by (simp add: to_file_record_def owner_of_def)
  moreover have "fr_owner r = userEmail"
    if "f_owners f = None \<or> f_owners f = Some [] \<or>
       (\<exists>ow rest. f_owners f = Some (ow # rest) \<and>
                  (emailAddress ow = None \<or> emailAddress ow = Some []))"
    using that f(3) by (auto simp: to_file_record_def owner_of_def)
  ultimately show ?thesis using auth raw f by blast
qed

theorem owner_is_first_owner_email_or_scanned_user_witness:
  "getPubliclySharedFiles demo_world ''example.com'' ''admin@example.com'' ''alice@example.com''
     = Some (Inr alice_records) \<and>
   alice_records ! 0 \<in> set alice_records \<and>
   (\<exists>f. f \<in> set alice_files \<and> alice_records ! 0 = to_file_record ''alice@example.com'' f \<and>
        f_owners f = Some [\<lparr>emailAddress = Some ''alice@example.com''\<rparr>] \<and>
        fr_owner (alice_records ! 0) = ''alice@example.com'')"
proof -
  have scan: "getPubliclySharedFiles demo_world ''example.com'' ''admin@example.com''
     ''alice@example.com'' = Some (Inr alice_records)"
    using demo_scans(1) by (simp add: demo_scan_def)
  have mem: "alice_records ! 0 \<in> set alice_records" by (simp add: alice_records_def)
  from owner_is_first_owner_email_or_scanned_user[OF scan mem]
  obtain auth raw f where
    "impersonate demo_world ''alice@example.com'' = Inr auth"
    "fetched (files_request_of demo_world auth) None raw"
    "f \<in> set raw" "alice_records ! 0 = to_file_record ''alice@example.com'' f"
    by blast
  with demo_impersonate[of "''alice@example.com''"] demo_alice_fetched
  have f: "f \<in> set alice_files" "alice_records ! 0 = to_file_record ''alice@example.com'' f"
    by (auto dest: fetched_unique)
  then have "f_owners f = Some [\<lparr>emailAddress = Some ''alice@example.com''\<rparr>]"
    by (auto simp: alice_files_def demo_file_def)
  moreover have "fr_owner (alice_records ! 0) = ''alice@example.com''"
    by (simp add: alice_records_def demo_record_def)
  ultimately show ?thesis using scan mem f by blast
qed

end
